theory Spec2Isabelle
  imports Complex_Main "HOL-Library.Word" "HOL-Library.Log_Nat"
begin

section \<open>Strings\<close>

text \<open>
  A Python \<open>str\<close> is a sequence of code points. The model uses \<^typ>\<open>string\<close> and reads each
  \<^typ>\<open>char\<close> as the code point of the same number (0 to 255, the Latin-1 block of Unicode).
  On that block \<open>str.lower()\<close> maps \<open>A\<close>..\<open>Z\<close> and the accented capitals U+00C0..U+00DE
  (without the multiplication sign U+00D7) to the code point 32 above, and leaves every other
  code point alone.
\<close>

definition lower_char :: "char \<Rightarrow> char" where
  "lower_char c =
     (let n = (of_char c :: nat)
      in if (65 \<le> n \<and> n \<le> 90) \<or> (192 \<le> n \<and> n \<le> 222 \<and> n \<noteq> 215)
         then char_of (n + 32) else c)"

definition lower :: "string \<Rightarrow> string" where
  "lower s = map lower_char s"

section \<open>Prompt builder (\<open>InferencePipeline._generate_prompt\<close>)\<close>

definition garment_prompts :: "(string \<times> string) list" where
  "garment_prompts =
     [(''hat'', ''wearing a stylish hat''),
      (''cap'', ''wearing a cap''),
      (''glasses'', ''wearing glasses''),
      (''sunglasses'', ''wearing sunglasses''),
      (''shirt'', ''wearing a button-up shirt''),
      (''t-shirt'', ''wearing a t-shirt''),
      (''blouse'', ''wearing a blouse''),
      (''dress'', ''wearing a dress''),
      (''jacket'', ''wearing a jacket''),
      (''coat'', ''wearing a coat''),
      (''sweater'', ''wearing a sweater''),
      (''hoodie'', ''wearing a hoodie''),
      (''pants'', ''wearing pants''),
      (''jeans'', ''wearing jeans''),
      (''skirt'', ''wearing a skirt''),
      (''shoes'', ''wearing shoes''),
      (''scarf'', ''wearing a scarf''),
      (''tie'', ''wearing a tie'')]"

text \<open>\<open>d.get(k, default)\<close> on a dictionary literal.\<close>

definition dict_get :: "('k \<times> 'v) list \<Rightarrow> 'k \<Rightarrow> 'v \<Rightarrow> 'v" where
  "dict_get d k dflt = (case map_of d k of Some v \<Rightarrow> v | None \<Rightarrow> dflt)"

definition generate_prompt :: "string \<Rightarrow> string \<Rightarrow> string" where
  "generate_prompt garment_type base_prompt =
     (let garment_detail =
            dict_get garment_prompts (lower garment_type) (''wearing '' @ garment_type);
          prompt = ''A person '' @ garment_detail @ '', photorealistic, high quality, ''
                   @ ''professional photography, natural lighting, detailed fabric texture''
      in prompt)"

definition prompt_suffix :: string where
  "prompt_suffix =
     '', photorealistic, high quality, professional photography, natural lighting, detailed fabric texture''"

section \<open>Python floats\<close>

text \<open>
  A Python \<open>float\<close> is an IEEE 754 binary64 number. The model represents a finite double by
  the rational number it denotes and every arithmetic operation by the exact operation
  followed by \<open>double_round\<close>, rounding to the nearest number with a 53-bit significand, ties
  to the even significand. The exponent range is not limited in the model (no overflow to
  infinity, no subnormal numbers): every quantity below is built from image dimensions and
  pixel counts, whose magnitudes lie between \<open>2\<^sup>-\<^sup>6\<^sup>4\<close> and \<open>2\<^sup>6\<^sup>4\<close>.
\<close>

definition round_half_even :: "rat \<Rightarrow> int" where
  "round_half_even x =
     (let f = \<lfloor>x\<rfloor>; d = x - of_int f
      in if d < 1/2 then f else if 1/2 < d then f + 1 else if even f then f else f + 1)"

text \<open>The exponent \<open>e\<close> with \<open>2\<^sup>e \<le> x < 2\<^sup>e\<^sup>+\<^sup>1\<close>, for positive \<open>x\<close>.\<close>

definition binade :: "rat \<Rightarrow> int" where
  "binade x =
     (if 1 \<le> x then int (floorlog 2 (nat \<lfloor>x\<rfloor>)) - 1
      else - int (floorlog 2 (nat \<lceil>1 / x\<rceil> - 1)))"

definition double_round :: "rat \<Rightarrow> rat" where
  "double_round x =
     (if x = 0 then 0
      else let a = \<bar>x\<bar>; q = 2 powi (binade a - 52)
           in sgn x * of_int (round_half_even (a / q)) * q)"

text \<open>The double denoted by the decimal literal \<open>m / 10\<^sup>d\<close>, such as \<open>0.15\<close>.\<close>

definition float_literal :: "int \<Rightarrow> nat \<Rightarrow> rat" where
  "float_literal m d = double_round (of_int m / 10 ^ d)"

definition float_of_int :: "int \<Rightarrow> rat" where
  "float_of_int n = double_round (of_int n)"

definition float_mul :: "rat \<Rightarrow> rat \<Rightarrow> rat" where
  "float_mul a b = double_round (a * b)"

definition float_sub :: "rat \<Rightarrow> rat \<Rightarrow> rat" where
  "float_sub a b = double_round (a - b)"

text \<open>Python's \<open>int(x)\<close> on a float truncates towards zero.\<close>

definition py_int :: "rat \<Rightarrow> int" where
  "py_int x = (if 0 \<le> x then \<lfloor>x\<rfloor> else \<lceil>x\<rceil>)"

text \<open>\<open>int(n * c)\<close> for an integer \<open>n\<close> and a float \<open>c\<close>: \<open>n\<close> is converted to a float first.\<close>

definition int_times :: "int \<Rightarrow> rat \<Rightarrow> int" where
  "int_times n c = py_int (float_mul (float_of_int n) c)"

section \<open>Errors\<close>

text \<open>
  The exceptions that the modelled code can meet. \<open>Raised msg\<close> is an exception raised inside
  one of the two model adapters (classifier, inpainting pipeline), with \<open>str(e) = msg\<close>.
\<close>

datatype py_error = ZeroDivisionError | IndexError | Raised string

fun str_of_error :: "py_error \<Rightarrow> string" where
  "str_of_error ZeroDivisionError = ''division by zero''"
| "str_of_error IndexError = ''list index out of range''"
| "str_of_error (Raised msg) = msg"

text \<open>True division \<open>a / b\<close> of two Python integers: correctly rounded, or an exception.\<close>

definition int_truediv :: "int \<Rightarrow> int \<Rightarrow> py_error + rat" where
  "int_truediv a b =
     (if b = 0 then Inl ZeroDivisionError else Inr (double_round (of_int a / of_int b)))"

text \<open>\<open>a / b\<close> for a Python integer \<open>a\<close> and a float \<open>b\<close>.\<close>

definition float_truediv :: "rat \<Rightarrow> rat \<Rightarrow> py_error + rat" where
  "float_truediv a b = (if b = 0 then Inl ZeroDivisionError else Inr (double_round (a / b)))"

section \<open>Configuration (\<open>config.py\<close>)\<close>

definition MAX_IMAGE_SIZE :: "int \<times> int" where
  "MAX_IMAGE_SIZE = (768, 1024)"

definition GUIDANCE_SCALE :: rat where
  "GUIDANCE_SCALE = float_literal 75 1"

definition NUM_INFERENCE_STEPS :: nat where
  "NUM_INFERENCE_STEPS = 50"

definition GARMENT_TYPES :: "string list" where
  "GARMENT_TYPES =
     [''shirt'', ''t-shirt'', ''blouse'', ''dress'', ''pants'', ''jeans'', ''skirt'',
      ''jacket'', ''coat'', ''sweater'', ''hoodie'', ''hat'', ''cap'', ''shoes'',
      ''glasses'', ''sunglasses'', ''scarf'', ''tie'']"

definition MASK_DILATION_KERNEL :: nat where
  "MASK_DILATION_KERNEL = 15"

definition MASK_BLUR_SIZE :: "nat \<times> nat" where
  "MASK_BLUR_SIZE = (5, 5)"

section \<open>Arrays\<close>

text \<open>
  A two-dimensional numpy array of \<open>uint8\<close> is a list of rows of bytes; its shape is
  \<open>(nrows, ncols)\<close>. (An array with no rows has no recorded width in this representation;
  the operations below are used on arrays with at least one row.)
\<close>

type_synonym mask = "8 word list list"

definition tabulate2 :: "nat \<Rightarrow> nat \<Rightarrow> (int \<Rightarrow> int \<Rightarrow> 'a) \<Rightarrow> 'a list list" where
  "tabulate2 h w f = map (\<lambda>r. map (\<lambda>c. f (int r) (int c)) [0..<w]) [0..<h]"

definition nrows :: "'a list list \<Rightarrow> nat" where
  "nrows m = length m"

definition ncols :: "'a list list \<Rightarrow> nat" where
  "ncols m = (case m of [] \<Rightarrow> 0 | row # _ \<Rightarrow> length row)"

definition is_mask :: "nat \<Rightarrow> nat \<Rightarrow> 'a list list \<Rightarrow> bool" where
  "is_mask h w m \<longleftrightarrow> length m = h \<and> list_all (\<lambda>row. length row = w) m"

definition px :: "'a list list \<Rightarrow> int \<Rightarrow> int \<Rightarrow> 'a" where
  "px m r c = m ! nat r ! nat c"

definition inside :: "'a list list \<Rightarrow> int \<Rightarrow> int \<Rightarrow> bool" where
  "inside m r c \<longleftrightarrow> 0 \<le> r \<and> r < int (nrows m) \<and> 0 \<le> c \<and> c < int (ncols m)"

text \<open>\<open>np.zeros((h, w), dtype=np.uint8)\<close>, \<open>np.count_nonzero\<close> and \<open>ndarray.size\<close>.\<close>

definition zeros :: "nat \<Rightarrow> nat \<Rightarrow> mask" where
  "zeros h w = replicate h (replicate w 0)"

definition count_nonzero :: "mask \<Rightarrow> nat" where
  "count_nonzero m = sum_list (map (\<lambda>row. length (filter (\<lambda>v. v \<noteq> 0) row)) m)"

definition array_size :: "mask \<Rightarrow> nat" where
  "array_size m = nrows m * ncols m"

section \<open>The OpenCV operations used by the masker\<close>

text \<open>
  These follow OpenCV's implementation for 8-bit single-channel images and the default
  arguments that the source leaves implicit (anchor at the kernel centre, constant border
  that never wins a maximum or minimum for morphology, reflected border \<open>BORDER_REFLECT_101\<close>
  for the blur).

  \<open>cv2.rectangle(img, pt1, pt2, color, -1)\<close> fills the rectangle spanned by the two corner
  points, both corners included, clipped to the image. Points are \<open>(x, y)\<close>.
\<close>

definition rectangle :: "mask \<Rightarrow> int \<times> int \<Rightarrow> int \<times> int \<Rightarrow> 8 word \<Rightarrow> mask" where
  "rectangle img pt1 pt2 color =
     (let (x1, y1) = pt1; (x2, y2) = pt2
      in tabulate2 (nrows img) (ncols img)
           (\<lambda>r c. if min x1 x2 \<le> c \<and> c \<le> max x1 x2 \<and> min y1 y2 \<le> r \<and> r \<le> max y1 y2
                  then color else px img r c))"

text \<open>
  \<open>cv2.getStructuringElement(cv2.MORPH_ELLIPSE, (kw, kh))\<close>: row \<open>i\<close> has ones in the columns
  \<open>c - dx .. c + dx\<close> where \<open>r = kh div 2\<close>, \<open>c = kw div 2\<close>, \<open>dy = i - r\<close> and \<open>dx\<close> is
  \<open>c * sqrt ((r\<^sup>2 - dy\<^sup>2) / r\<^sup>2)\<close> rounded to the nearest integer. The nearest integer to a
  square root is computed here by counting the \<open>n\<close> with \<open>n - 1/2 \<le> sqrt \<dots>\<close>, in exact
  arithmetic.
\<close>

definition ellipse_half_width :: "nat \<Rightarrow> nat \<Rightarrow> int \<Rightarrow> int" where
  "ellipse_half_width r c dy =
     (if r = 0 then 0
      else int (length (filter
             (\<lambda>n. (2 * int n - 1)\<^sup>2 * (int r)\<^sup>2 \<le> 4 * (int c)\<^sup>2 * ((int r)\<^sup>2 - dy\<^sup>2))
             [1..<Suc c])))"

definition getStructuringElement_ellipse :: "nat \<times> nat \<Rightarrow> mask" where
  "getStructuringElement_ellipse ksize =
     (let (kw, kh) = ksize; r = kh div 2; c = kw div 2
      in tabulate2 kh kw
           (\<lambda>i j. let dy = i - int r
                  in if \<bar>dy\<bar> \<le> int r
                     then (let dx = ellipse_half_width r c dy;
                               j1 = max (int c - dx) 0;
                               j2 = min (int c + dx + 1) (int kw)
                           in if j1 \<le> j \<and> j < j2 then 1 else 0)
                     else 0))"

text \<open>The offsets \<open>(dy, dx)\<close> of the non-zero kernel elements from the anchor (the centre).\<close>

definition kernel_offsets :: "mask \<Rightarrow> (int \<times> int) list" where
  "kernel_offsets k =
     concat (map (\<lambda>i. concat (map (\<lambda>j. if k ! i ! j \<noteq> 0
                                        then [(int i - int (nrows k div 2), int j - int (ncols k div 2))]
                                        else [])
                                [0..<ncols k]))
                 [0..<nrows k])"

text \<open>
  One pass of \<open>cv2.dilate\<close> / \<open>cv2.erode\<close>: the maximum (minimum) of the source over the
  kernel's support placed at the pixel; positions outside the image do not take part.
\<close>

definition dilate1 :: "mask \<Rightarrow> mask \<Rightarrow> mask" where
  "dilate1 kern src =
     tabulate2 (nrows src) (ncols src)
       (\<lambda>r c. foldr max
                (map (\<lambda>(dy, dx). if inside src (r + dy) (c + dx) then px src (r + dy) (c + dx) else 0)
                     (kernel_offsets kern))
                0)"

definition erode1 :: "mask \<Rightarrow> mask \<Rightarrow> mask" where
  "erode1 kern src =
     tabulate2 (nrows src) (ncols src)
       (\<lambda>r c. foldr min
                (map (\<lambda>(dy, dx). if inside src (r + dy) (c + dx) then px src (r + dy) (c + dx) else 255)
                     (kernel_offsets kern))
                255)"

definition dilate :: "mask \<Rightarrow> mask \<Rightarrow> nat \<Rightarrow> mask" where
  "dilate src kern iterations = (dilate1 kern ^^ iterations) src"

definition erode :: "mask \<Rightarrow> mask \<Rightarrow> nat \<Rightarrow> mask" where
  "erode src kern iterations = (erode1 kern ^^ iterations) src"

text \<open>\<open>cv2.morphologyEx\<close> with \<open>MORPH_CLOSE\<close> and with \<open>MORPH_OPEN\<close>.\<close>

definition morphologyEx_close :: "mask \<Rightarrow> mask \<Rightarrow> nat \<Rightarrow> mask" where
  "morphologyEx_close src kern iterations =
     erode (dilate src kern iterations) kern iterations"

definition morphologyEx_open :: "mask \<Rightarrow> mask \<Rightarrow> nat \<Rightarrow> mask" where
  "morphologyEx_open src kern iterations =
     dilate (erode src kern iterations) kern iterations"

text \<open>
  \<open>cv::borderInterpolate\<close> for \<open>BORDER_REFLECT_101\<close>: the index is reflected at the first
  and at the last pixel until it falls inside \<open>0 .. len - 1\<close>.
\<close>

function border_interpolate :: "int \<Rightarrow> int \<Rightarrow> int" where
  "border_interpolate p len =
     (if 0 \<le> p \<and> p < len then p
      else if len \<le> 1 then 0
      else border_interpolate (if p < 0 then - p else 2 * len - 2 - p) len)"
  by pat_completeness auto
termination
  by (relation "measure (\<lambda>(p, len). nat (if p < 0 then 2 * (- p) + 1 else 2 * p))") auto

text \<open>
  \<open>cv2.GaussianBlur(src, (5, 5), 0)\<close> on an 8-bit image: the separable kernel
  \<open>[1, 4, 6, 4, 1] / 16\<close> in both directions, computed in fixed point and rounded once, so
  that the result is \<open>(S + 128) div 256\<close> for the weighted sum \<open>S\<close> of the 25 neighbours.
\<close>

definition gaussian_taps :: "(int \<times> nat) list" where
  "gaussian_taps = [(-2, 1), (-1, 4), (0, 6), (1, 4), (2, 1)]"

definition GaussianBlur_5x5 :: "mask \<Rightarrow> mask" where
  "GaussianBlur_5x5 src =
     (let h = nrows src; w = ncols src
      in tabulate2 h w
           (\<lambda>r c. word_of_nat
              ((sum_list (map (\<lambda>(i, a). sum_list (map (\<lambda>(j, b).
                    a * b * unat (px src (border_interpolate (r + i) (int h))
                                         (border_interpolate (c + j) (int w))))
                  gaussian_taps)) gaussian_taps) + 128) div 256)))"

section \<open>Images and the object store\<close>

text \<open>
  A PIL image is a mutable object: \<open>Image.thumbnail\<close> changes it in place. Images therefore
  live in a store and are passed by reference. The pixel content is kept as a function from
  \<open>(x, y)\<close> to an RGB triple.
\<close>

type_synonym pixels = "nat \<Rightarrow> nat \<Rightarrow> 8 word \<times> 8 word \<times> 8 word"

record image =
  im_width :: nat
  im_height :: nat
  im_pixels :: pixels

type_synonym ref = nat

record world =
  heap :: "ref \<Rightarrow> image"
  ticks :: nat

section \<open>The masker (\<open>SemanticMasker\<close>)\<close>

definition garment_regions :: "int \<Rightarrow> int \<Rightarrow> (string \<times> (int \<times> int \<times> int \<times> int)) list" where
  "garment_regions width height =
     [(''hat'', (0, 0, width, int_times height (float_literal 15 2))),
      (''glasses'', (int_times width (float_literal 25 2), int_times height (float_literal 15 2),
                     int_times width (float_literal 75 2), int_times height (float_literal 25 2))),
      (''shirt'', (0, int_times height (float_literal 15 2), width, int_times height (float_literal 6 1))),
      (''t-shirt'', (0, int_times height (float_literal 15 2), width, int_times height (float_literal 5 1))),
      (''blouse'', (0, int_times height (float_literal 15 2), width, int_times height (float_literal 55 2))),
      (''dress'', (0, int_times height (float_literal 15 2), width, int_times height (float_literal 85 2))),
      (''jacket'', (0, int_times height (float_literal 15 2), width, int_times height (float_literal 65 2))),
      (''pants'', (0, int_times height (float_literal 45 2), width, int_times height (float_literal 9 1))),
      (''jeans'', (0, int_times height (float_literal 45 2), width, int_times height (float_literal 9 1))),
      (''skirt'', (0, int_times height (float_literal 4 1), width, int_times height (float_literal 75 2))),
      (''shoes'', (0, int_times height (float_literal 85 2), width, height)),
      (''scarf'', (int_times width (float_literal 2 1), int_times height (float_literal 2 1),
                   int_times width (float_literal 8 1), int_times height (float_literal 35 2)))]"

definition garment_region :: "image \<Rightarrow> string \<Rightarrow> int \<times> int \<times> int \<times> int" where
  "garment_region img garment_type =
     (let height = int (im_height img); width = int (im_width img)
      in dict_get (garment_regions width height) (lower garment_type) (0, 0, width, height))"

text \<open>The mask after \<open>cv2.rectangle\<close>, before dilation and blur.\<close>

definition drawn_region_mask :: "image \<Rightarrow> string \<Rightarrow> mask" where
  "drawn_region_mask img garment_type =
     (let mask = zeros (im_height img) (im_width img);
          (x1, y1, x2, y2) = garment_region img garment_type
      in rectangle mask (x1, y1) (x2, y2) 255)"

definition create_garment_region_mask :: "image \<Rightarrow> string \<Rightarrow> mask" where
  "create_garment_region_mask img garment_type =
     (let mask = drawn_region_mask img garment_type;
          kern = getStructuringElement_ellipse (MASK_DILATION_KERNEL, MASK_DILATION_KERNEL);
          mask = dilate mask kern 1;
          mask = GaussianBlur_5x5 mask
      in mask)"

definition refine_mask :: "mask \<Rightarrow> nat \<Rightarrow> mask" where
  "refine_mask mask_in iterations =
     (let kern = getStructuringElement_ellipse (5, 5);
          mask = morphologyEx_close mask_in kern iterations;
          mask = morphologyEx_open mask kern iterations
      in mask)"

record mask_statistics =
  total_pixels :: nat
  masked_pixels :: nat
  coverage_percentage :: rat

definition get_mask_statistics :: "mask \<Rightarrow> py_error + mask_statistics" where
  "get_mask_statistics mask_in =
     (let total_pixels = array_size mask_in;
          masked_pixels = count_nonzero mask_in
      in case int_truediv (int masked_pixels) (int total_pixels) of
           Inl e \<Rightarrow> Inl e
         | Inr ratio \<Rightarrow>
             Inr \<lparr>total_pixels = total_pixels, masked_pixels = masked_pixels,
                  coverage_percentage = float_mul ratio (float_of_int 100)\<rparr>)"

section \<open>The external collaborators\<close>

text \<open>
  The classifier, the inpainting pipeline, the Lanczos resampling filter and the wall clock
  are not part of the modelled code. They are parameters: deterministic functions of their
  arguments, the two adapters with the possibility of raising. The clock is a sequence of
  readings; \<open>time.time()\<close> returns the next one.
\<close>

record classification =
  cls_garment_type :: string
  cls_confidence :: rat
  cls_alternatives :: "string list"

record env =
  now :: "nat \<Rightarrow> rat"
  resample :: "image \<Rightarrow> nat \<times> nat \<Rightarrow> pixels"
  classify :: "image \<Rightarrow> py_error + classification"
  inpaint :: "string \<Rightarrow> image \<Rightarrow> mask \<Rightarrow> rat \<Rightarrow> nat \<Rightarrow> py_error + image list"

definition time :: "env \<Rightarrow> world \<Rightarrow> rat \<times> world" where
  "time e w = (now e (ticks w), w\<lparr>ticks := Suc (ticks w)\<rparr>)"

section \<open>The image adapter (\<open>ImageProcessor.resize_image\<close>)\<close>

text \<open>
  \<open>Image.thumbnail(size, resample)\<close> of Pillow: the target size keeps the aspect ratio and
  fits into \<open>size\<close>; an image that already fits is left alone; otherwise the image object
  itself receives the new size and the resampled content.
\<close>

definition round_aspect :: "rat \<Rightarrow> (int \<Rightarrow> rat) \<Rightarrow> int" where
  "round_aspect number key =
     max (if key \<lceil>number\<rceil> < key \<lfloor>number\<rfloor> then \<lceil>number\<rceil> else \<lfloor>number\<rfloor>) 1"

definition preserve_aspect_ratio :: "image \<Rightarrow> int \<times> int \<Rightarrow> py_error + (int \<times> int) option" where
  "preserve_aspect_ratio im provided_size =
     (let (x, y) = provided_size
      in if int (im_width im) \<le> x \<and> int (im_height im) \<le> y then Inr None
         else case int_truediv (int (im_width im)) (int (im_height im)) of
           Inl e \<Rightarrow> Inl e
         | Inr aspect \<Rightarrow>
            (case int_truediv x y of
               Inl e \<Rightarrow> Inl e
             | Inr xy \<Rightarrow>
                if aspect \<le> xy
                then Inr (Some (round_aspect (float_mul (float_of_int y) aspect)
                                  (\<lambda>n. \<bar>float_sub aspect (double_round (of_int n / of_int y))\<bar>), y))
                else (case float_truediv (float_of_int x) aspect of
                        Inl e \<Rightarrow> Inl e
                      | Inr number \<Rightarrow>
                          Inr (Some (x, round_aspect number
                                  (\<lambda>n. if n = 0 then 0
                                       else \<bar>float_sub aspect (double_round (of_int x / of_int n))\<bar>))))))"

definition thumbnail :: "env \<Rightarrow> world \<Rightarrow> ref \<Rightarrow> int \<times> int \<Rightarrow> (py_error + unit) \<times> world" where
  "thumbnail e w r max_size =
     (let im = heap w r
      in case preserve_aspect_ratio im max_size of
           Inl err \<Rightarrow> (Inl err, w)
         | Inr None \<Rightarrow> (Inr (), w)
         | Inr (Some (fx, fy)) \<Rightarrow>
             if (int (im_width im), int (im_height im)) \<noteq> (fx, fy)
             then (Inr (), w\<lparr>heap := (heap w)(r := \<lparr>im_width = nat fx, im_height = nat fy,
                                                      im_pixels = resample e im (nat fx, nat fy)\<rparr>)\<rparr>)
             else (Inr (), w))"

definition resize_image :: "env \<Rightarrow> world \<Rightarrow> ref \<Rightarrow> int \<times> int \<Rightarrow> (py_error + ref) \<times> world" where
  "resize_image e w img max_size =
     (case thumbnail e w img max_size of
        (Inl err, w') \<Rightarrow> (Inl err, w')
      | (Inr _, w') \<Rightarrow> (Inr img, w'))"

section \<open>The orchestrator (\<open>InferencePipeline\<close>)\<close>

record try_on_result =
  result_image :: image
  garment_detected :: string
  confidence :: rat
  mask_used :: mask
  processing_time :: rat

text \<open>
  \<open>generate_try_on\<close>. The \<open>except\<close> clause logs and re-raises, so an exception of any stage is
  the outcome of the call. \<open>Image.fromarray(mask).convert("L")\<close> keeps the bytes of the mask.
\<close>

definition generate_try_on ::
  "env \<Rightarrow> world \<Rightarrow> ref \<Rightarrow> ref \<Rightarrow> string option \<Rightarrow> rat \<Rightarrow> nat \<Rightarrow> (py_error + try_on_result) \<times> world" where
  "generate_try_on e w0 person_image garment_image garment_type guided_scale num_inference_steps =
     (let (start_time, w1) = time e w0
      in case resize_image e w1 person_image MAX_IMAGE_SIZE of
           (Inl err, w2) \<Rightarrow> (Inl err, w2)
         | (Inr person_image, w2) \<Rightarrow>
      (case resize_image e w2 garment_image MAX_IMAGE_SIZE of
           (Inl err, w3) \<Rightarrow> (Inl err, w3)
         | (Inr garment_image, w3) \<Rightarrow>
      (case (case garment_type of
               None \<Rightarrow> (case classify e (heap w3 garment_image) of
                           Inl err \<Rightarrow> Inl err
                         | Inr classification \<Rightarrow>
                             Inr (cls_garment_type classification, cls_confidence classification))
             | Some t \<Rightarrow> Inr (t, 1)) of
           Inl err \<Rightarrow> (Inl err, w3)
         | Inr (resolved_type, conf) \<Rightarrow>
      (let mask = create_garment_region_mask (heap w3 person_image) resolved_type;
           mask = refine_mask mask 2;
           mask_image = mask;
           prompt = generate_prompt resolved_type ''person wearing high-quality clothing''
       in case inpaint e prompt (heap w3 person_image) mask_image guided_scale num_inference_steps of
            Inl err \<Rightarrow> (Inl err, w3)
          | Inr [] \<Rightarrow> (Inl IndexError, w3)
          | Inr (first_image # _) \<Rightarrow>
              (let (end_time, w4) = time e w3;
                   elapsed = float_sub end_time start_time
               in (Inr \<lparr>result_image = first_image, garment_detected = resolved_type,
                        confidence = conf, mask_used = mask_image,
                        processing_time = elapsed\<rparr>, w4))))))"

text \<open>
  \<open>batch_try_on\<close>. An entry of the returned list is a result or the error record
  \<open>{"error": str(e)}\<close>. The lookup \<open>garment_types[i]\<close> stands outside the \<open>try\<close>: an index
  beyond a non-empty \<open>garment_types\<close> ends the whole call.
\<close>

definition garment_type_at :: "string option list option \<Rightarrow> nat \<Rightarrow> py_error + string option" where
  "garment_type_at garment_types i =
     (case garment_types of
        None \<Rightarrow> Inr None
      | Some [] \<Rightarrow> Inr None
      | Some ts \<Rightarrow> (if i < length ts then Inr (ts ! i) else Inl IndexError))"

fun batch_loop ::
  "env \<Rightarrow> world \<Rightarrow> nat \<Rightarrow> (ref \<times> ref) list \<Rightarrow> string option list option
   \<Rightarrow> (string + try_on_result) list \<Rightarrow> (py_error + (string + try_on_result) list) \<times> world" where
  "batch_loop e w i [] garment_types results = (Inr results, w)"
| "batch_loop e w i ((person_img, garment_img) # rest) garment_types results =
     (case garment_type_at garment_types i of
        Inl err \<Rightarrow> (Inl err, w)
      | Inr garment_type \<Rightarrow>
          (case generate_try_on e w person_img garment_img garment_type
                  GUIDANCE_SCALE NUM_INFERENCE_STEPS of
             (Inr result, w') \<Rightarrow>
               batch_loop e w' (Suc i) rest garment_types (results @ [Inr result])
           | (Inl err, w') \<Rightarrow>
               batch_loop e w' (Suc i) rest garment_types (results @ [Inl (str_of_error err)])))"

definition batch_try_on ::
  "env \<Rightarrow> world \<Rightarrow> ref list \<Rightarrow> ref list \<Rightarrow> string option list option
   \<Rightarrow> (py_error + (string + try_on_result) list) \<times> world" where
  "batch_try_on e w person_images garment_images garment_types =
     batch_loop e w 0 (zip person_images garment_images) garment_types []"

section \<open>Notions used in the statements about the orchestrator\<close>

text \<open>
  \<open>resized\<close> is the effect of \<open>thumbnail\<close> on the image value alone: the image that the object
  holds afterwards, or the exception. \<open>try_on_outcome\<close> is the part of \<open>generate_try_on\<close> that
  follows the two resizings, as a function of the two resized images and the clock position.
  A store \<open>v\<close> is \<open>stale\<close> for \<open>w\<close> when each of its images is the image of \<open>w\<close> or that image
  resized. \<open>batch_entry\<close> is the entry that \<open>batch_try_on\<close> appends for an outcome, and
  \<open>clock_reads\<close> counts the clock readings behind a list of entries: two for a result
  (start and end), one for a failure (start only).
\<close>

definition resized :: "env \<Rightarrow> image \<Rightarrow> int \<times> int \<Rightarrow> py_error + image" where
  "resized e im max_size =
     (case preserve_aspect_ratio im max_size of
        Inl err \<Rightarrow> Inl err
      | Inr None \<Rightarrow> Inr im
      | Inr (Some (fx, fy)) \<Rightarrow>
          if (int (im_width im), int (im_height im)) \<noteq> (fx, fy)
          then Inr \<lparr>im_width = nat fx, im_height = nat fy,
                    im_pixels = resample e im (nat fx, nat fy)\<rparr>
          else Inr im)"

definition batch_entry :: "py_error + try_on_result \<Rightarrow> string + try_on_result" where
  "batch_entry outcome = (case outcome of Inr result \<Rightarrow> Inr result | Inl err \<Rightarrow> Inl (str_of_error err))"

definition clock_reads :: "(string + try_on_result) list \<Rightarrow> nat" where
  "clock_reads entries = sum_list (map (\<lambda>x. case x of Inl _ \<Rightarrow> 1 | Inr _ \<Rightarrow> 2) entries)"

definition try_on_outcome ::
  "env \<Rightarrow> nat \<Rightarrow> image \<Rightarrow> image \<Rightarrow> string option \<Rightarrow> rat \<Rightarrow> nat \<Rightarrow> py_error + try_on_result" where
  "try_on_outcome e k person garment garment_type guided_scale num_inference_steps =
     (case (case garment_type of
              None \<Rightarrow> (case classify e garment of
                          Inl err \<Rightarrow> Inl err
                        | Inr c \<Rightarrow> Inr (cls_garment_type c, cls_confidence c))
            | Some t \<Rightarrow> Inr (t, 1)) of
        Inl err \<Rightarrow> Inl err
      | Inr (resolved_type, conf) \<Rightarrow>
          (let m = refine_mask (create_garment_region_mask person resolved_type) 2
           in case inpaint e (generate_prompt resolved_type ''person wearing high-quality clothing'')
                     person m guided_scale num_inference_steps of
                Inl err \<Rightarrow> Inl err
              | Inr [] \<Rightarrow> Inl IndexError
              | Inr (first_image # _) \<Rightarrow>
                  Inr \<lparr>result_image = first_image, garment_detected = resolved_type,
                       confidence = conf, mask_used = m,
                       processing_time = float_sub (now e (Suc k)) (now e k)\<rparr>))"

definition stale :: "env \<Rightarrow> world \<Rightarrow> world \<Rightarrow> bool" where
  "stale e w v \<longleftrightarrow>
     (\<forall>r. heap v r = heap w r \<or> resized e (heap w r) MAX_IMAGE_SIZE = Inr (heap v r))"

section \<open>A concrete environment\<close>

text \<open>
  A small instance on which the theorems below are exercised: a store whose image \<open>0\<close> is
  larger than \<open>MAX_IMAGE_SIZE\<close> and whose other images are small, a classifier that answers
  \<open>hat\<close> with confidence 1, and an inpainting pipeline that fails on the prompt for a tie and
  returns its input image otherwise.
\<close>

definition blank_pixels :: pixels where
  "blank_pixels = (\<lambda>x y. (0, 0, 0))"

definition example_image :: "nat \<Rightarrow> nat \<Rightarrow> image" where
  "example_image w h = \<lparr>im_width = w, im_height = h, im_pixels = blank_pixels\<rparr>"

definition example_world :: world where
  "example_world =
     \<lparr>heap = (\<lambda>r. if r = 0 then example_image 2000 1500 else example_image 6 4), ticks = 0\<rparr>"

definition example_env :: env where
  "example_env =
     \<lparr>now = (\<lambda>n. of_nat n),
      resample = (\<lambda>im sz. blank_pixels),
      classify = (\<lambda>im. Inr \<lparr>cls_garment_type = ''hat'', cls_confidence = 1,
                              cls_alternatives = []\<rparr>),
      inpaint = (\<lambda>prompt im m g n. if prompt = generate_prompt ''tie'' []
                                    then Inl (Raised ''out of memory'') else Inr [im])\<rparr>"

definition example_result :: "nat \<Rightarrow> try_on_result" where
  "example_result k =
     \<lparr>result_image = example_image 6 4, garment_detected = ''hat'', confidence = 1,
      mask_used = refine_mask (create_garment_region_mask (example_image 6 4) ''hat'') 2,
      processing_time = float_sub (of_nat (Suc k)) (of_nat k)\<rparr>"

section \<open>Rounding to a double\<close>

lemma round_half_even_of_int: "round_half_even (of_int n) = n"
  by (simp add: round_half_even_def)

lemma round_half_even_le: "x \<le> of_int n \<Longrightarrow> round_half_even x \<le> n"
  unfolding round_half_even_def Let_def
  by (auto simp: floor_le_iff floor_less_iff; linarith)

lemma round_half_even_ge: "of_int n \<le> x \<Longrightarrow> n \<le> round_half_even x"
  unfolding round_half_even_def Let_def
  by (auto simp: le_floor_iff; linarith)

lemma round_half_even_err: "\<bar>of_int (round_half_even x) - x\<bar> \<le> 1/2"
proof -
  have "of_int \<lfloor>x\<rfloor> \<le> x" "x < of_int \<lfloor>x\<rfloor> + 1" by linarith+
  then show ?thesis
    unfolding round_half_even_def Let_def by (simp split: if_splits)
qed

lemma round_half_even_near:
  "x \<le> of_int n \<Longrightarrow> of_int n - x < 1/2 \<Longrightarrow> round_half_even x = n"
  unfolding round_half_even_def Let_def
  by (auto; linarith)

lemma binade_bounds:
  assumes "0 < x"
  shows "2 powi (binade x) \<le> x \<and> x < 2 powi (binade x + 1)"
proof (cases "1 \<le> x")
  case True
  define n where "n = nat \<lfloor>x\<rfloor>"
  have n: "0 < n" using True by (simp add: n_def)
  have b: "binade x = int (floorlog 2 n) - 1"
    using True by (simp add: binade_def n_def)
  have fl: "0 < floorlog 2 n" using n by (simp add: floorlog_def)
  from floorlog_bounds[OF n, of 2]
  have lo: "2 ^ (floorlog 2 n - 1) \<le> n" and hi: "n < 2 ^ floorlog 2 n" by simp_all
  have e1: "int (floorlog 2 n) - 1 = int (floorlog 2 n - 1)" using fl by simp
  have "(2::rat) powi (binade x) = 2 ^ (floorlog 2 n - 1)"
    unfolding b e1 by simp
  also have "\<dots> = of_nat (2 ^ (floorlog 2 n - 1))" by simp
  also have "\<dots> \<le> of_nat n" using lo of_nat_le_iff by blast
  also have "\<dots> \<le> x" using True by (simp add: n_def)
  finally have A: "2 powi (binade x) \<le> x" .
  have "x < of_int (\<lfloor>x\<rfloor> + 1)" by linarith
  also have "\<dots> = of_nat (n + 1)" using True by (simp add: n_def)
  also have "\<dots> \<le> of_nat (2 ^ floorlog 2 n)" using hi of_nat_le_iff by (metis Suc_eq_plus1 Suc_leI)
  also have "\<dots> = (2::rat) powi (binade x + 1)" unfolding b by simp
  finally show ?thesis using A by simp
next
  case False
  define y where "y = 1 / x"
  have y: "1 < y" using False assms by (simp add: y_def)
  define n where "n = nat \<lceil>y\<rceil> - 1"
  have cy: "2 \<le> \<lceil>y\<rceil>" using y by linarith
  have n: "0 < n" using cy by (simp add: n_def)
  have n1: "int n + 1 = \<lceil>y\<rceil>" using cy unfolding n_def by linarith
  define k where "k = floorlog 2 n"
  have b: "binade x = - int k"
    using False by (simp add: binade_def n_def k_def y_def)
  have fl: "0 < k" using n by (simp add: floorlog_def k_def)
  from floorlog_bounds[OF n, of 2]
  have lo: "2 ^ (k - 1) \<le> n" and hi: "n < 2 ^ k" by (simp_all add: k_def)
  have "y \<le> of_int \<lceil>y\<rceil>" by linarith
  also have "\<dots> = of_nat (n + 1)" using n1 by (metis of_int_of_nat_eq of_nat_Suc Suc_eq_plus1 of_nat_add of_nat_1)
  also have "\<dots> \<le> of_nat (2 ^ k)" using hi of_nat_le_iff by (metis Suc_eq_plus1 Suc_leI)
  finally have yk: "y \<le> 2 ^ k" by simp
  have "(2::rat) powi (binade x) = 1 / 2 ^ k" unfolding b by (simp add: power_int_minus_divide)
  also have "\<dots> \<le> x" using yk assms by (simp add: y_def field_simps)
  finally have A: "2 powi (binade x) \<le> x" .
  have "int (2 ^ (k - 1)) < \<lceil>y\<rceil>" using lo n1 by linarith
  then have "of_int (int (2 ^ (k - 1))) < y" using less_ceiling_iff by blast
  then have B: "2 ^ (k - 1) < y" by simp
  have e: "- int k + 1 = - int (k - 1)" using fl by simp
  have "x < 1 / 2 ^ (k - 1)" using B assms by (simp add: y_def field_simps)
  also have "\<dots> = (2::rat) powi (binade x + 1)" unfolding b e by (simp add: power_int_minus_divide)
  finally show ?thesis using A by simp
qed

lemma double_round_pos_eq:
  assumes "0 < x"
  shows "double_round x = of_int (round_half_even (x / 2 powi (binade x - 52))) * 2 powi (binade x - 52)"
  using assms by (simp add: double_round_def Let_def)

lemma double_round_err:
  assumes "0 < x"
  shows "\<bar>double_round x - x\<bar> \<le> 2 powi (binade x - 53)"
proof -
  define q :: rat where "q = 2 powi (binade x - 52)"
  have q: "0 < q" by (simp add: q_def)
  have h: "2 powi (binade x - 53) = q / 2"
    by (simp add: q_def power_int_diff)
  have "double_round x - x = (of_int (round_half_even (x / q)) - x / q) * q"
    using q by (simp add: double_round_pos_eq[OF assms] q_def[symmetric] algebra_simps)
  then have "\<bar>double_round x - x\<bar> = \<bar>of_int (round_half_even (x / q)) - x / q\<bar> * q"
    using q by (simp add: abs_mult)
  also have "\<dots> \<le> (1/2) * q"
    using round_half_even_err[of "x / q"] q by (intro mult_right_mono) simp_all
  finally show ?thesis by (simp add: h)
qed

lemma binade_less:
  assumes "0 < x" "x < 2 powi e"
  shows "binade x < e"
proof (rule ccontr)
  assume "\<not> binade x < e"
  then have "e \<le> binade x" by simp
  then have "(2::rat) powi e \<le> 2 powi binade x" by (intro power_int_increasing) simp_all
  with binade_bounds[OF assms(1)] assms(2) show False by linarith
qed

lemma quantum_divides:
  assumes "e \<le> 52"
  shows "\<exists>N::int. of_int k / (2::rat) powi (e - 52) = of_int N"
proof -
  have "(2::rat) powi (e - 52) = 1 / 2 ^ nat (52 - e)"
    using assms by (simp add: power_int_def field_simps)
  then have "of_int k / (2::rat) powi (e - 52) = of_int (k * 2 ^ nat (52 - e))" by simp
  then show ?thesis by blast
qed

lemma double_round_le_int:
  assumes "0 < x" "x \<le> of_int k" "x < 2 ^ 53"
  shows "double_round x \<le> of_int k"
proof -
  define q :: rat where "q = 2 powi (binade x - 52)"
  have q: "0 < q" by (simp add: q_def)
  have "binade x < 53" using binade_less[OF assms(1), of 53] assms(3) by simp
  then obtain N :: int where N: "of_int k / q = of_int N"
    using quantum_divides[of "binade x" k] unfolding q_def by auto
  have "x / q \<le> of_int N" using assms(2) q N by (metis divide_right_mono less_imp_le)
  then have "round_half_even (x / q) \<le> N" by (rule round_half_even_le)
  then have "of_int (round_half_even (x / q)) * q \<le> of_int N * q"
    using q by (simp add: mult_right_mono)
  also have "of_int N * q = of_int k" using N q by (simp add: field_simps)
  finally show ?thesis by (simp add: double_round_pos_eq[OF assms(1)] q_def)
qed

lemma double_round_ge_int:
  assumes "0 < x" "of_int k \<le> x" "x < 2 ^ 53"
  shows "of_int k \<le> double_round x"
proof -
  define q :: rat where "q = 2 powi (binade x - 52)"
  have q: "0 < q" by (simp add: q_def)
  have "binade x < 53" using binade_less[OF assms(1), of 53] assms(3) by simp
  then obtain N :: int where N: "of_int k / q = of_int N"
    using quantum_divides[of "binade x" k] unfolding q_def by auto
  have "of_int N \<le> x / q" using assms(2) q N by (metis divide_right_mono less_imp_le)
  then have "N \<le> round_half_even (x / q)" by (rule round_half_even_ge)
  then have "of_int N * q \<le> of_int (round_half_even (x / q)) * q"
    using q by (simp add: mult_right_mono)
  moreover have "of_int N * q = of_int k" using N q by (simp add: field_simps)
  ultimately have "of_int k \<le> of_int (round_half_even (x / q)) * q" by simp
  then show ?thesis by (simp add: double_round_pos_eq[OF assms(1)] q_def)
qed

lemma double_round_near_int:
  assumes "0 < x" "x \<le> of_int k" "of_int k - x < 2 powi (binade x - 53)" "x < 2 ^ 53"
  shows "double_round x = of_int k"
proof -
  define q :: rat where "q = 2 powi (binade x - 52)"
  have q: "0 < q" by (simp add: q_def)
  have h: "2 powi (binade x - 53) = q / 2"
    by (simp add: q_def power_int_diff)
  have "binade x < 53" using binade_less[OF assms(1), of 53] assms(4) by simp
  then obtain N :: int where N: "of_int k / q = of_int N"
    using quantum_divides[of "binade x" k] unfolding q_def by auto
  have 1: "x / q \<le> of_int N" using assms(2) q N by (metis divide_right_mono less_imp_le)
  have "(of_int k - x) / q < (q / 2) / q" using assms(3) q unfolding h by (simp add: divide_strict_right_mono)
  then have 2: "of_int N - x / q < 1 / 2" using q N by (simp add: diff_divide_distrib)
  have "round_half_even (x / q) = N" using 1 2 by (rule round_half_even_near)
  then have "double_round x = of_int N * q" by (simp add: double_round_pos_eq[OF assms(1)] q_def)
  then show ?thesis using N q by (simp add: field_simps)
qed

lemma double_round_of_int:
  assumes "0 \<le> k" "k < 2 ^ 53"
  shows "double_round (of_int k) = of_int k"
proof (cases "k = 0")
  case True then show ?thesis by (simp add: double_round_def)
next
  case False
  then have p: "0 < (of_int k :: rat)" using assms by simp
  have l: "(of_int k :: rat) < 2 ^ 53" using assms(2) by (metis of_int_less_iff of_int_numeral of_int_power)
  show ?thesis using double_round_le_int[OF p _ l, of k] double_round_ge_int[OF p _ l, of k] by simp
qed


lemma float_015: "float_literal 15 2 = 5404319552844595 / 2 ^ 55"
  unfolding float_literal_def by code_simp

lemma floor_double_round:
  assumes "0 < x" "of_int k \<le> x" "x + 1 / 2 ^ 23 < of_int k + 1" "x < 2 ^ 31"
  shows "\<lfloor>double_round x\<rfloor> = k"
proof -
  have x53: "x < 2 ^ 53" using assms(4) by simp
  have lo: "of_int k \<le> double_round x"
    using double_round_ge_int[OF assms(1,2) x53] .
  have "binade x < 31" using binade_less[OF assms(1), of 31] assms(4) by simp
  then have "(2::rat) powi (binade x - 53) \<le> 2 powi (- 23)"
    by (intro power_int_increasing) simp_all
  also have "\<dots> = 1 / 2 ^ 23" by (simp add: power_int_minus_divide)
  finally have "\<bar>double_round x - x\<bar> \<le> 1 / 2 ^ 23"
    using double_round_err[OF assms(1)] by linarith
  then have hi: "double_round x < of_int k + 1" using assms(3) by linarith
  show ?thesis using lo hi by (simp add: floor_unique)
qed

lemma int_times_015:
  assumes "1 \<le> h" "h < 2 ^ 31"
  shows "int_times h (float_literal 15 2) = (15 * h) div 100"
proof -
  define k where "k = (15 * h) div 100"
  define r where "r = (15 * h) mod 100"
  define x :: rat where "x = of_int h * (5404319552844595 / 2 ^ 55)"
  have dec: "15 * h = 100 * k + r" and r: "0 \<le> r" "r < 100"
    unfolding k_def r_def by presburger+
  have hq: "(1::rat) \<le> of_int h" "(of_int h :: rat) < 2 ^ 31"
    using assms by (simp_all add: of_int_less_iff[of h "2^31", where ?'a = rat, simplified] of_int_le_iff[of 1 h, where ?'a = rat, simplified])
  have foi: "float_of_int h = of_int h"
    unfolding float_of_int_def using assms by (intro double_round_of_int) simp_all
  have xpos: "0 < x" using hq by (simp add: x_def)
  have x31: "x < 2 ^ 31" using hq by (simp add: x_def)
  have "of_int (15 * h) = (of_int (100 * k + r) :: rat)" using dec by simp
  then have hk: "(of_int h :: rat) = (100 * of_int k + of_int r) / 15" by simp
  have xeq: "x = of_int k + of_int r / 100 - of_int h / (5 * 2 ^ 55)"
    unfolding x_def hk by (simp add: field_simps)
  have kpos: "0 \<le> k" using assms by (simp add: k_def)
  have "\<lfloor>double_round x\<rfloor> = k"
  proof (cases "r = 0")
    case False
    then have r1: "(1::rat) \<le> of_int r" "(of_int r :: rat) \<le> 99"
      using r by (simp_all add: of_int_le_iff[of 1 r, where ?'a = rat, simplified] of_int_le_iff[of r 99, where ?'a = rat, simplified])
    have a: "of_int k \<le> x" unfolding xeq using r1 hq by simp
    have b: "x + 1 / 2 ^ 23 < of_int k + 1" unfolding xeq using r1 hq by simp
    show ?thesis using floor_double_round[OF xpos a b x31] .
  next
    case True
    then have hk': "(of_int h :: rat) = 100 * of_int k / 15" using hk by simp
    have xk: "x = of_int k * (1 - 1 / (3 * 2 ^ 53))"
      unfolding xeq using True hk' by (simp add: field_simps)
    have kp: "(0::rat) < of_int k" using xpos xk by (simp add: zero_less_mult_iff)
    have le: "x \<le> of_int k" unfolding xk using kp by (simp add: field_simps)
    have "x < 2 powi (binade x + 1)" using binade_bounds[OF xpos] by simp
    also have "\<dots> = 2 ^ 54 * 2 powi (binade x - 53)"
      by (simp add: power_int_diff power_int_add)
    finally have "x / 2 ^ 54 < 2 powi (binade x - 53)" by (simp add: field_simps)
    moreover have "of_int k - x \<le> x / 2 ^ 54" unfolding xk using kp by (simp add: field_simps)
    ultimately have near: "of_int k - x < 2 powi (binade x - 53)" by linarith
    have "double_round x = of_int k"
      using double_round_near_int[OF xpos le near] x31 by simp
    then show ?thesis by simp
  qed
  moreover have "0 \<le> double_round x" using double_round_ge_int[OF xpos, of 0] x31 xpos by simp
  ultimately show ?thesis
    by (simp add: int_times_def float_mul_def foi float_015 py_int_def x_def k_def)
qed


section \<open>Properties of the prompt builder\<close>

lemma generate_prompt_shape:
  "generate_prompt g b =
     ''A person '' @ dict_get garment_prompts (lower g) (''wearing '' @ g) @ prompt_suffix"
  by (simp add: generate_prompt_def prompt_suffix_def)

lemma lower_hoodie: "lower ''hoodie'' = ''hoodie''"
  by (simp add: lower_def lower_char_def)

text \<open>
  Claim C4. The prompt is a function of the garment category alone (the second argument,
  \<open>base_prompt\<close>, is ignored). For every category string it is \<open>"A person "\<close>, then the
  category's clause, then one fixed suffix. The clause is the table entry when the category
  is known, which for the code means that its lower-cased form is a key of the table
  (\<open>"wearing a hoodie"\<close> for \<open>"hoodie"\<close>), and \<open>"wearing "\<close> followed by the category as given
  otherwise.
\<close>

theorem generate_prompt_prefix_clause_suffix:
  "generate_prompt g b =
     ''A person ''
     @ (case map_of garment_prompts (lower g) of
          Some clause \<Rightarrow> clause
        | None \<Rightarrow> ''wearing '' @ g)
     @ '', photorealistic, high quality, professional photography, natural lighting, detailed fabric texture''
   \<and> generate_prompt g b = generate_prompt g b'
   \<and> map_of garment_prompts (lower ''hoodie'') = Some ''wearing a hoodie''"
proof (intro conjI)
  show "generate_prompt g b =
     ''A person ''
     @ (case map_of garment_prompts (lower g) of
          Some clause \<Rightarrow> clause
        | None \<Rightarrow> ''wearing '' @ g)
     @ '', photorealistic, high quality, professional photography, natural lighting, detailed fabric texture''"
    unfolding generate_prompt_shape dict_get_def prompt_suffix_def ..
  show "generate_prompt g b = generate_prompt g b'"
    by (simp only: generate_prompt_shape)
  show "map_of garment_prompts (lower ''hoodie'') = Some ''wearing a hoodie''"
    unfolding lower_hoodie by (simp add: garment_prompts_def)
qed

section \<open>Properties of the image adapter\<close>

lemma resize_image_fits:
  "preserve_aspect_ratio (heap w r) s = Inr None \<Longrightarrow> resize_image e w r s = (Inr r, w)"
  by (simp add: resize_image_def thumbnail_def)

lemma resize_image_classify_irrelevant:
  "resize_image (e\<lparr>classify := c\<rparr>) w r s = resize_image e w r s"
  by (simp add: resize_image_def thumbnail_def Let_def split: sum.splits option.splits prod.splits)

lemma example_large_target:
  "preserve_aspect_ratio (example_image 2000 1500) MAX_IMAGE_SIZE = Inr (Some (768, 576))"
  by code_simp

lemma example_small_fits:
  "preserve_aspect_ratio (example_image 6 4) MAX_IMAGE_SIZE = Inr None"
  by (simp add: preserve_aspect_ratio_def MAX_IMAGE_SIZE_def example_image_def)

text \<open>
  Claim C9 does not hold of the code. \<open>resize_image\<close> calls \<open>Image.thumbnail\<close>, which works in
  place, and returns the very object it was given: for a 2000 x 1500 image the returned
  reference is the argument, and the argument's size has become 768 x 576.
\<close>

theorem resize_image_mutates_its_argument:
  "fst (resize_image example_env example_world 0 MAX_IMAGE_SIZE) = Inr 0
   \<and> (im_width (heap example_world 0), im_height (heap example_world 0)) = (2000, 1500)
   \<and> (im_width (heap (snd (resize_image example_env example_world 0 MAX_IMAGE_SIZE)) 0),
      im_height (heap (snd (resize_image example_env example_world 0 MAX_IMAGE_SIZE)) 0)) = (768, 576)"
proof -
  have h0: "heap example_world 0 = example_image 2000 1500"
    by (simp add: example_world_def)
  have "thumbnail example_env example_world 0 MAX_IMAGE_SIZE =
      (Inr (), example_world\<lparr>heap := (heap example_world)(0 := \<lparr>im_width = 768, im_height = 576,
             im_pixels = resample example_env (example_image 2000 1500) (768, 576)\<rparr>)\<rparr>)"
    by (simp add: thumbnail_def h0 example_large_target Let_def) (simp add: example_image_def)
  then show ?thesis
    by (simp add: resize_image_def h0) (simp add: example_image_def)
qed

section \<open>Properties of the orchestrator\<close>

lemma time_classify_irrelevant: "time (e\<lparr>classify := c\<rparr>) w = time e w"
  by (simp add: time_def)

lemma generate_try_on_supplied:
  assumes "generate_try_on e w p g (Some t) gs n = (Inr r, w')"
  shows "confidence r = 1 \<and> garment_detected r = t"
  using assms
  by (auto simp: generate_try_on_def Let_def split: prod.splits sum.splits list.splits)

lemma generate_try_on_skips_classifier:
  "generate_try_on (e\<lparr>classify := c\<rparr>) w p g (Some t) gs n = generate_try_on e w p g (Some t) gs n"
  by (simp add: generate_try_on_def resize_image_classify_irrelevant time_classify_irrelevant Let_def
        split: prod.splits sum.splits list.splits)

lemma resize_image_ref: "resize_image e w r s = (Inr r', w') \<Longrightarrow> r' = r"
  by (auto simp: resize_image_def split: prod.splits sum.splits)

lemma generate_try_on_classified:
  assumes "generate_try_on e w p g None gs n = (Inr r, w')"
  shows "\<exists>cl. classify e (heap w' g) = Inr cl \<and> confidence r = cls_confidence cl
            \<and> garment_detected r = cls_garment_type cl"
  using assms
  by (auto simp: generate_try_on_def Let_def time_def split: prod.splits sum.splits list.splits
           dest!: resize_image_ref)

lemma example_prompt_tie:
  "generate_prompt t b = generate_prompt ''tie'' [] \<longleftrightarrow> 
     dict_get garment_prompts (lower t) (''wearing '' @ t) = ''wearing a tie''"
  by (simp add: generate_prompt_shape dict_get_def garment_prompts_def lower_def lower_char_def)

lemma example_generate_try_on:
  assumes "heap w (Suc 0) = example_image 6 4"
  shows "generate_try_on example_env w (Suc 0) (Suc 0) garment_type gs n =
     (let t = (case garment_type of None \<Rightarrow> ''hat'' | Some t \<Rightarrow> t)
      in if generate_prompt t [] = generate_prompt ''tie'' []
         then (Inl (Raised ''out of memory''), w\<lparr>ticks := Suc (ticks w)\<rparr>)
         else (Inr \<lparr>result_image = example_image 6 4, garment_detected = t, confidence = 1,
                    mask_used = refine_mask (create_garment_region_mask (example_image 6 4) t) 2,
                    processing_time = float_sub (of_nat (Suc (ticks w))) (of_nat (ticks w))\<rparr>,
               w\<lparr>ticks := Suc (Suc (ticks w))\<rparr>))"
proof -
  have f: "\<And>w'. heap w' = heap w \<Longrightarrow> resize_image example_env w' (Suc 0) MAX_IMAGE_SIZE = (Inr (Suc 0), w')"
    by (rule resize_image_fits) (simp add: assms example_small_fits)
  have c: "classify example_env = (\<lambda>im. Inr \<lparr>cls_garment_type = ''hat'', cls_confidence = 1, cls_alternatives = []\<rparr>)"
    and i: "inpaint example_env = (\<lambda>prompt im m g n. if prompt = generate_prompt ''tie'' [] then Inl (Raised ''out of memory'') else Inr [im])"
    and n: "now example_env = of_nat"
    by (simp_all add: example_env_def fun_eq_iff)
  show ?thesis
    by (cases garment_type)
       (simp_all add: generate_try_on_def time_def f Let_def c i n assms generate_prompt_shape)
qed

lemma example_run_hat:
  assumes "heap w (Suc 0) = example_image 6 4" "garment_type = None \<or> garment_type = Some ''hat''"
  shows "generate_try_on example_env w (Suc 0) (Suc 0) garment_type gs n =
           (Inr (example_result (ticks w)), w\<lparr>ticks := Suc (Suc (ticks w))\<rparr>)"
  using assms(2)
  by (auto simp: example_generate_try_on[OF assms(1)] example_prompt_tie example_result_def
        dict_get_def garment_prompts_def lower_def lower_char_def Let_def)

lemma example_run_tie:
  assumes "heap w (Suc 0) = example_image 6 4"
  shows "generate_try_on example_env w (Suc 0) (Suc 0) (Some ''tie'') gs n =
           (Inl (Raised ''out of memory''), w\<lparr>ticks := Suc (ticks w)\<rparr>)"
  by (simp add: example_generate_try_on[OF assms(1)])

text \<open>
  Claim C5 as stated fails in one direction: a confidence of 1.0 does not tell that the
  caller supplied the category. Without a supplied category the confidence is the
  classifier's, and a classifier may answer with confidence 1.0.
\<close>

theorem confidence_one_without_supplied_category:
  "fst (generate_try_on example_env example_world 1 1 None GUIDANCE_SCALE NUM_INFERENCE_STEPS)
     = Inr (example_result 0)
   \<and> confidence (example_result 0) = 1"
proof -
  have "heap example_world (Suc 0) = example_image 6 4" by (simp add: example_world_def)
  from example_run_hat[OF this, of None] show ?thesis
    by (simp add: example_world_def example_result_def)
qed

text \<open>
  Claim C5, amended. If a category is supplied, the classifier is not consulted (the outcome
  is the same under any classifier), and a result has confidence 1.0 and the supplied
  category. If none is supplied, the category and the confidence of a result are those of the
  classifier's answer for the garment image as it stands after resizing.
\<close>

theorem confidence_of_supplied_and_classified:
  "(generate_try_on e w p g (Some t) gs n = (Inr r, w')
      \<longrightarrow> confidence r = 1 \<and> garment_detected r = t)
   \<and> generate_try_on (e\<lparr>classify := c\<rparr>) w p g (Some t) gs n
        = generate_try_on e w p g (Some t) gs n
   \<and> (generate_try_on e w p g None gs n = (Inr r2, w2)
      \<longrightarrow> (\<exists>cl. classify e (heap w2 g) = Inr cl \<and> confidence r2 = cls_confidence cl
                \<and> garment_detected r2 = cls_garment_type cl))"
proof (intro conjI impI)
  assume "generate_try_on e w p g (Some t) gs n = (Inr r, w')"
  from generate_try_on_supplied[OF this]
  show "confidence r = 1" and "garment_detected r = t" by simp_all
next
  show "generate_try_on (e\<lparr>classify := c\<rparr>) w p g (Some t) gs n
        = generate_try_on e w p g (Some t) gs n"
    by (rule generate_try_on_skips_classifier)
next
  assume "generate_try_on e w p g None gs n = (Inr r2, w2)"
  then show "\<exists>cl. classify e (heap w2 g) = Inr cl \<and> confidence r2 = cls_confidence cl
                \<and> garment_detected r2 = cls_garment_type cl"
    by (rule generate_try_on_classified)
qed

theorem confidence_of_supplied_and_classified_witness:
  "generate_try_on example_env example_world 1 1 (Some ''hat'') GUIDANCE_SCALE NUM_INFERENCE_STEPS
     = (Inr (example_result 0), example_world\<lparr>ticks := 2\<rparr>)
   \<and> confidence (example_result 0) = 1 \<and> garment_detected (example_result 0) = ''hat''
   \<and> generate_try_on example_env example_world 1 1 None GUIDANCE_SCALE NUM_INFERENCE_STEPS
     = (Inr (example_result 0), example_world\<lparr>ticks := 2\<rparr>)
   \<and> (\<exists>cl. classify example_env (heap (example_world\<lparr>ticks := 2\<rparr>) 1) = Inr cl
          \<and> confidence (example_result 0) = cls_confidence cl
          \<and> garment_detected (example_result 0) = cls_garment_type cl)"
proof -
  have h: "heap example_world (Suc 0) = example_image 6 4" by (simp add: example_world_def)
  have a: "generate_try_on example_env example_world 1 1 (Some ''hat'') GUIDANCE_SCALE NUM_INFERENCE_STEPS
     = (Inr (example_result 0), example_world\<lparr>ticks := 2\<rparr>)"
    using example_run_hat[OF h, of "Some ''hat''"] by (simp add: example_world_def numeral_2_eq_2)
  have b: "generate_try_on example_env example_world 1 1 None GUIDANCE_SCALE NUM_INFERENCE_STEPS
     = (Inr (example_result 0), example_world\<lparr>ticks := 2\<rparr>)"
    using example_run_hat[OF h, of None] by (simp add: example_world_def numeral_2_eq_2)
  note T = confidence_of_supplied_and_classified[where e = example_env and w = example_world
      and p = 1 and g = 1 and t = "''hat''" and gs = GUIDANCE_SCALE and n = NUM_INFERENCE_STEPS
      and r = "example_result 0" and w' = "example_world\<lparr>ticks := 2\<rparr>"
      and ?r2.0 = "example_result 0" and ?w2.0 = "example_world\<lparr>ticks := 2\<rparr>"
      and c = "classify example_env"]
  from T a have 1: "confidence (example_result 0) = 1 \<and> garment_detected (example_result 0) = ''hat''"
    by blast
  from T b have 2: "\<exists>cl. classify example_env (heap (example_world\<lparr>ticks := 2\<rparr>) 1) = Inr cl
          \<and> confidence (example_result 0) = cls_confidence cl
          \<and> garment_detected (example_result 0) = cls_garment_type cl"
    by blast
  show ?thesis using a b 1 2 by blast
qed

section \<open>Resizing twice\<close>

lemma thumbnail_resized:
  "thumbnail e w r s =
     (case resized e (heap w r) s of
        Inl err \<Rightarrow> (Inl err, w)
      | Inr im \<Rightarrow> (Inr (), w\<lparr>heap := (heap w)(r := im)\<rparr>))"
  by (simp add: thumbnail_def resized_def Let_def split: sum.splits option.splits prod.splits)

lemma resize_image_resized:
  "resize_image e w r s =
     (case resized e (heap w r) s of
        Inl err \<Rightarrow> (Inl err, w)
      | Inr im \<Rightarrow> (Inr r, w\<lparr>heap := (heap w)(r := im)\<rparr>))"
  by (simp add: resize_image_def thumbnail_resized split: sum.splits)

lemma double_round_nonneg: "0 \<le> x \<Longrightarrow> 0 \<le> double_round x"
proof (cases "x = 0")
  case True then show ?thesis by (simp add: double_round_def)
next
  case False
  assume "0 \<le> x"
  with False have x: "0 < x" by simp
  have "0 \<le> x / 2 powi (binade x - 52)" using x by simp
  then have "0 \<le> round_half_even (x / 2 powi (binade x - 52))"
    using round_half_even_ge[of 0] by simp
  then show ?thesis by (simp add: double_round_pos_eq[OF x])
qed

lemma double_round_le_nat:
  assumes "0 \<le> x" "x \<le> of_int k" "k < 2 ^ 53"
  shows "double_round x \<le> of_int k"
proof (cases "x = 0")
  case True
  then show ?thesis using assms by (simp add: double_round_def)
next
  case False
  then have x: "0 < x" using assms(1) by simp
  have "(of_int k :: rat) < 2 ^ 53" using assms(3) by (metis of_int_less_iff of_int_numeral of_int_power)
  then have "x < 2 ^ 53" using assms(2) by linarith
  then show ?thesis using double_round_le_int[OF x assms(2)] by simp
qed

lemma three_quarters: "int_truediv 768 1024 = Inr (3 / 4)"
  unfolding int_truediv_def by code_simp

lemma float_1024: "float_of_int 1024 = 1024" "float_of_int 768 = 768"
  unfolding float_of_int_def using double_round_of_int[of 1024] double_round_of_int[of 768] by simp_all

lemma round_aspect_bounds:
  assumes "0 \<le> number" "number \<le> of_int k" "1 \<le> k"
  shows "1 \<le> round_aspect number key \<and> round_aspect number key \<le> k"
proof -
  have c: "\<lceil>number\<rceil> \<le> k" using assms(2) by (simp add: ceiling_le_iff)
  have "\<lfloor>number\<rfloor> \<le> \<lceil>number\<rceil>" by (rule floor_le_ceiling)
  then have f: "\<lfloor>number\<rfloor> \<le> k" using c by linarith
  show ?thesis using assms(3) c f by (simp add: round_aspect_def)
qed

lemma preserve_aspect_ratio_bounds:
  assumes "preserve_aspect_ratio im MAX_IMAGE_SIZE = Inr (Some (fx, fy))"
  shows "1 \<le> fx \<and> fx \<le> 768 \<and> 1 \<le> fy \<and> fy \<le> 1024"
proof -
  define W where "W = int (im_width im)"
  define H where "H = int (im_height im)"
  have WH: "0 \<le> W" "0 \<le> H" by (simp_all add: W_def H_def)
  from assms have nofit: "\<not> (W \<le> 768 \<and> H \<le> 1024)"
    by (auto simp: preserve_aspect_ratio_def MAX_IMAGE_SIZE_def W_def H_def)
  from assms have H0: "H \<noteq> 0"
    by (auto simp: preserve_aspect_ratio_def MAX_IMAGE_SIZE_def W_def H_def int_truediv_def split: if_splits)
  define aspect where "aspect = double_round (of_int W / of_int H)"
  have asp: "int_truediv W H = Inr aspect" using H0 by (simp add: int_truediv_def aspect_def)
  have a0: "0 \<le> aspect" unfolding aspect_def using WH by (intro double_round_nonneg) simp
  show ?thesis
  proof (cases "aspect \<le> 3 / 4")
    case True
    with assms have fy: "fy = 1024" and "\<exists>key. fx = round_aspect (float_mul 1024 aspect) key"
      using asp nofit
      by (auto simp: preserve_aspect_ratio_def MAX_IMAGE_SIZE_def three_quarters float_1024
            W_def[symmetric] H_def[symmetric])
    then obtain key where fx: "fx = round_aspect (float_mul 1024 aspect) key" by blast
    have "1024 * aspect \<le> of_int 768" using True by simp
    then have "double_round (1024 * aspect) \<le> of_int 768"
      using a0 by (intro double_round_le_nat) simp_all
    moreover have "0 \<le> double_round (1024 * aspect)" using a0 by (intro double_round_nonneg) simp
    ultimately show ?thesis
      using round_aspect_bounds[of "float_mul 1024 aspect" 768 key] unfolding fx fy float_mul_def by simp
  next
    case False
    then have apos: "0 < aspect" by simp
    with assms False have fx: "fx = 768" and "\<exists>key. fy = round_aspect (double_round (768 / aspect)) key"
      using asp nofit
      by (auto simp: preserve_aspect_ratio_def MAX_IMAGE_SIZE_def three_quarters float_1024
            float_truediv_def W_def[symmetric] H_def[symmetric])
    then obtain key where fy: "fy = round_aspect (double_round (768 / aspect)) key" by blast
    have "768 / aspect \<le> of_int 1024" using False apos by (simp add: field_simps)
    then have "double_round (768 / aspect) \<le> of_int 1024"
      using apos by (intro double_round_le_nat) simp_all
    moreover have "0 \<le> double_round (768 / aspect)" using apos by (intro double_round_nonneg) simp
    ultimately show ?thesis
      using round_aspect_bounds[of "double_round (768 / aspect)" 1024 key] unfolding fx fy by simp
  qed
qed

lemma resized_idempotent:
  assumes "resized e im MAX_IMAGE_SIZE = Inr im'"
  shows "resized e im' MAX_IMAGE_SIZE = Inr im'"
proof (cases "preserve_aspect_ratio im MAX_IMAGE_SIZE")
  case (Inl err)
  then show ?thesis using assms by (simp add: resized_def)
next
  case (Inr target)
  show ?thesis
  proof (cases target)
    case None
    then show ?thesis using assms Inr by (simp add: resized_def)
  next
    case (Some fxy)
    obtain fx fy where fxy: "fxy = (fx, fy)" by (cases fxy)
    note t = Inr[unfolded Some fxy]
    show ?thesis
    proof (cases "(int (im_width im), int (im_height im)) = (fx, fy)")
      case True
      then have "im' = im" using assms t by (simp add: resized_def)
      then show ?thesis using assms by simp
    next
      case False
      then have im': "im' = \<lparr>im_width = nat fx, im_height = nat fy,
                    im_pixels = resample e im (nat fx, nat fy)\<rparr>"
        using assms t by (auto simp: resized_def)
      from preserve_aspect_ratio_bounds[OF t]
      have "preserve_aspect_ratio im' MAX_IMAGE_SIZE = Inr None"
        by (simp add: preserve_aspect_ratio_def MAX_IMAGE_SIZE_def im')
      then show ?thesis by (simp add: resized_def)
    qed
  qed
qed

lemma stale_refl: "stale e w w"
  by (simp add: stale_def)

lemma stale_ticks: "stale e w (v\<lparr>ticks := k\<rparr>) = stale e w v" "stale e (w\<lparr>ticks := k\<rparr>) v = stale e w v"
  by (simp_all add: stale_def)

lemma resized_stale:
  assumes "stale e w v"
  shows "resized e (heap v r) MAX_IMAGE_SIZE = resized e (heap w r) MAX_IMAGE_SIZE"
proof -
  from assms have "heap v r = heap w r \<or> resized e (heap w r) MAX_IMAGE_SIZE = Inr (heap v r)"
    by (simp add: stale_def)
  then show ?thesis
  proof
    assume "heap v r = heap w r" then show ?thesis by simp
  next
    assume a: "resized e (heap w r) MAX_IMAGE_SIZE = Inr (heap v r)"
    from resized_idempotent[OF a] a show ?thesis by simp
  qed
qed

lemma stale_update:
  assumes "stale e w v" "resized e (heap v r) MAX_IMAGE_SIZE = Inr im"
  shows "stale e w (v\<lparr>heap := (heap v)(r := im)\<rparr>)"
  using assms resized_stale[OF assms(1), of r] by (auto simp: stale_def)

lemma generate_try_on_stages:
  "generate_try_on e w p g t gs n =
     (case resized e (heap w p) MAX_IMAGE_SIZE of
        Inl err \<Rightarrow> (Inl err, w\<lparr>ticks := Suc (ticks w)\<rparr>)
      | Inr P \<Rightarrow>
         (case resized e (((heap w)(p := P)) g) MAX_IMAGE_SIZE of
            Inl err \<Rightarrow> (Inl err, w\<lparr>ticks := Suc (ticks w), heap := (heap w)(p := P)\<rparr>)
          | Inr G \<Rightarrow>
             (case try_on_outcome e (ticks w) (((heap w)(p := P, g := G)) p) G t gs n of
                Inl err \<Rightarrow> (Inl err, w\<lparr>ticks := Suc (ticks w), heap := (heap w)(p := P, g := G)\<rparr>)
              | Inr result \<Rightarrow>
                  (Inr result, w\<lparr>ticks := Suc (Suc (ticks w)), heap := (heap w)(p := P, g := G)\<rparr>))))"
  by (simp add: generate_try_on_def time_def resize_image_resized try_on_outcome_def Let_def
        split: option.splits sum.splits list.splits prod.splits)

lemma generate_try_on_stale:
  assumes "stale e w v"
  shows "fst (generate_try_on e v p g t gs n) = fst (generate_try_on e (w\<lparr>ticks := ticks v\<rparr>) p g t gs n)
       \<and> stale e w (snd (generate_try_on e v p g t gs n))
       \<and> ticks (snd (generate_try_on e v p g t gs n))
           = ticks v + (case fst (generate_try_on e v p g t gs n) of Inl _ \<Rightarrow> 1 | Inr _ \<Rightarrow> 2)"
proof -
  let ?M = MAX_IMAGE_SIZE
  have rp: "resized e (heap v p) ?M = resized e (heap w p) ?M" by (rule resized_stale[OF assms])
  show ?thesis
  proof (cases "resized e (heap w p) ?M")
    case (Inl err)
    then show ?thesis using rp assms
      by (simp add: generate_try_on_stages stale_ticks)
  next
    case (Inr P)
    have sv: "stale e w (v\<lparr>heap := (heap v)(p := P)\<rparr>)"
      using stale_update[OF assms] rp Inr by simp
    have sw: "stale e w (w\<lparr>heap := (heap w)(p := P)\<rparr>)"
      using stale_update[OF stale_refl, of e w p P] Inr by simp
    have rg: "resized e (((heap v)(p := P)) g) ?M = resized e (((heap w)(p := P)) g) ?M"
      using resized_stale[OF sv, of g] resized_stale[OF sw, of g] by simp
    show ?thesis
    proof (cases "resized e (((heap w)(p := P)) g) ?M")
      case (Inl err)
      have "stale e w (v\<lparr>ticks := Suc (ticks v), heap := (heap v)(p := P)\<rparr>)"
        using sv by (simp add: stale_def)
      then show ?thesis using rp rg Inr Inl
        by (simp add: generate_try_on_stages)
    next
      case G: (Inr G)
      have sv3: "stale e w (v\<lparr>heap := (heap v)(p := P, g := G)\<rparr>)"
        using stale_update[OF sv, of g G] rg G by simp
      then have sv4: "\<And>k. stale e w (v\<lparr>ticks := k, heap := (heap v)(p := P, g := G)\<rparr>)"
        by (simp add: stale_def)
      have hp: "((heap v)(p := P, g := G)) p = ((heap w)(p := P, g := G)) p"
        by simp
      define out where "out = try_on_outcome e (ticks v) (((heap w)(p := P, g := G)) p) G t gs n"
      have rp': "resized e (heap v p) ?M = Inr P" using rp Inr by simp
      have rg': "resized e (((heap v)(p := P)) g) ?M = Inr G" using rg G by simp
      have L: "generate_try_on e v p g t gs n =
                 (case out of
                    Inl err \<Rightarrow> (Inl err, v\<lparr>ticks := Suc (ticks v), heap := (heap v)(p := P, g := G)\<rparr>)
                  | Inr result \<Rightarrow>
                      (Inr result, v\<lparr>ticks := Suc (Suc (ticks v)), heap := (heap v)(p := P, g := G)\<rparr>))"
        unfolding out_def by (simp only: generate_try_on_stages rp' rg' sum.case hp)
      have tw: "ticks (w\<lparr>ticks := ticks v\<rparr>) = ticks v" and hw: "heap (w\<lparr>ticks := ticks v\<rparr>) = heap w"
        by simp_all
      have R: "fst (generate_try_on e (w\<lparr>ticks := ticks v\<rparr>) p g t gs n) = out"
        unfolding out_def
        by (simp only: generate_try_on_stages tw hw Inr G sum.case) (simp split: sum.split)
      show ?thesis
        unfolding L R using sv4 by (cases out) simp_all
    qed
  qed
qed

section \<open>Batch processing\<close>

lemma clock_reads_Cons:
  "clock_reads (x # xs) = (case x of Inl _ \<Rightarrow> 1 | Inr _ \<Rightarrow> 2) + clock_reads xs"
  by (simp add: clock_reads_def)

lemma clock_reads_batch_entry:
  "(case batch_entry out of Inl _ \<Rightarrow> 1 | Inr _ \<Rightarrow> 2) = (case out of Inl _ \<Rightarrow> (1::nat) | Inr _ \<Rightarrow> 2)"
  by (cases out) (simp_all add: batch_entry_def)

lemma batch_loop_step:
  assumes "garment_type_at garment_types i = Inr t"
  shows "batch_loop e w i ((p, g) # rest) garment_types acc =
         batch_loop e (snd (generate_try_on e w p g t GUIDANCE_SCALE NUM_INFERENCE_STEPS)) (Suc i) rest
           garment_types
           (acc @ [batch_entry (fst (generate_try_on e w p g t GUIDANCE_SCALE NUM_INFERENCE_STEPS))])"
  using assms
  by (cases "generate_try_on e w p g t GUIDANCE_SCALE NUM_INFERENCE_STEPS")
     (auto simp: batch_entry_def split: sum.splits)

lemma batch_loop_entries:
  assumes "stale e w0 w"
    and "\<And>j. j < length items \<Longrightarrow> \<exists>t. garment_type_at garment_types (i + j) = Inr t"
  shows "\<exists>rs w'. batch_loop e w i items garment_types acc = (Inr (acc @ rs), w')
           \<and> length rs = length items
           \<and> (\<forall>j<length items. \<exists>t. garment_type_at garment_types (i + j) = Inr t
                 \<and> rs ! j = batch_entry (fst (generate_try_on e
                       (w0\<lparr>ticks := ticks w + clock_reads (take j rs)\<rparr>)
                       (fst (items ! j)) (snd (items ! j)) t GUIDANCE_SCALE NUM_INFERENCE_STEPS)))"
  using assms
proof (induction items arbitrary: w i acc)
  case Nil
  then show ?case by simp
next
  case (Cons pg items)
  obtain p g where pg: "pg = (p, g)" by (cases pg)
  from Cons.prems(2)[of 0] obtain t where t: "garment_type_at garment_types i = Inr t" by auto
  define out where "out = fst (generate_try_on e w p g t GUIDANCE_SCALE NUM_INFERENCE_STEPS)"
  define w1 where "w1 = snd (generate_try_on e w p g t GUIDANCE_SCALE NUM_INFERENCE_STEPS)"
  from generate_try_on_stale[OF Cons.prems(1), of p g t GUIDANCE_SCALE NUM_INFERENCE_STEPS]
  have alone: "out = fst (generate_try_on e (w0\<lparr>ticks := ticks w\<rparr>) p g t GUIDANCE_SCALE NUM_INFERENCE_STEPS)"
    and st: "stale e w0 w1"
    and tk: "ticks w1 = ticks w + (case out of Inl _ \<Rightarrow> 1 | Inr _ \<Rightarrow> 2)"
    by (simp_all add: out_def w1_def)
  have step: "batch_loop e w i (pg # items) garment_types acc =
              batch_loop e w1 (Suc i) items garment_types (acc @ [batch_entry out])"
    unfolding pg out_def w1_def by (rule batch_loop_step[OF t])
  have al: "\<And>j. j < length items \<Longrightarrow> \<exists>t. garment_type_at garment_types (Suc i + j) = Inr t"
    using Cons.prems(2)[of "Suc _"] by simp
  from Cons.IH[OF st al, of "acc @ [batch_entry out]"]
  obtain rs w' where run: "batch_loop e w1 (Suc i) items garment_types (acc @ [batch_entry out])
                             = (Inr ((acc @ [batch_entry out]) @ rs), w')"
    and len: "length rs = length items"
    and ent: "\<forall>j<length items. \<exists>t. garment_type_at garment_types (Suc i + j) = Inr t
                 \<and> rs ! j = batch_entry (fst (generate_try_on e
                       (w0\<lparr>ticks := ticks w1 + clock_reads (take j rs)\<rparr>)
                       (fst (items ! j)) (snd (items ! j)) t GUIDANCE_SCALE NUM_INFERENCE_STEPS))"
    by blast
  have "\<forall>j<length (pg # items). \<exists>t. garment_type_at garment_types (i + j) = Inr t
                 \<and> (batch_entry out # rs) ! j = batch_entry (fst (generate_try_on e
                       (w0\<lparr>ticks := ticks w + clock_reads (take j (batch_entry out # rs))\<rparr>)
                       (fst ((pg # items) ! j)) (snd ((pg # items) ! j)) t
                       GUIDANCE_SCALE NUM_INFERENCE_STEPS))"
  proof (intro allI impI)
    fix j assume j: "j < length (pg # items)"
    show "\<exists>t. garment_type_at garment_types (i + j) = Inr t
                 \<and> (batch_entry out # rs) ! j = batch_entry (fst (generate_try_on e
                       (w0\<lparr>ticks := ticks w + clock_reads (take j (batch_entry out # rs))\<rparr>)
                       (fst ((pg # items) ! j)) (snd ((pg # items) ! j)) t
                       GUIDANCE_SCALE NUM_INFERENCE_STEPS))"
    proof (cases j)
      case 0
      then show ?thesis using t alone by (simp add: pg clock_reads_def)
    next
      case (Suc j')
      then have "j' < length items" using j by simp
      with ent obtain t' where "garment_type_at garment_types (Suc i + j') = Inr t'"
        and "rs ! j' = batch_entry (fst (generate_try_on e
                       (w0\<lparr>ticks := ticks w1 + clock_reads (take j' rs)\<rparr>)
                       (fst (items ! j')) (snd (items ! j')) t' GUIDANCE_SCALE NUM_INFERENCE_STEPS))"
        by blast
      then show ?thesis
        unfolding Suc by (simp add: clock_reads_Cons clock_reads_batch_entry tk add.assoc)
    qed
  qed
  with run len show ?case
    unfolding step by (intro exI[of _ "batch_entry out # rs"] exI[of _ w']) simp
qed

lemma garment_type_at_aligned:
  assumes "garment_types = None \<or> garment_types = Some []
           \<or> (\<exists>ts. garment_types = Some ts \<and> n \<le> length ts)" "i < n"
  shows "\<exists>t. garment_type_at garment_types i = Inr t"
  using assms by (auto simp: garment_type_at_def split: list.splits)

lemma batch_try_on_entries:
  assumes "garment_types = None \<or> garment_types = Some []
           \<or> (\<exists>ts. garment_types = Some ts
                  \<and> min (length person_images) (length garment_images) \<le> length ts)"
  shows "\<exists>entries w'. batch_try_on e w person_images garment_images garment_types = (Inr entries, w')
           \<and> length entries = min (length person_images) (length garment_images)
           \<and> (\<forall>i<length entries. \<exists>t. garment_type_at garment_types i = Inr t
                 \<and> entries ! i = batch_entry (fst (generate_try_on e
                       (w\<lparr>ticks := ticks w + clock_reads (take i entries)\<rparr>)
                       (person_images ! i) (garment_images ! i) t
                       GUIDANCE_SCALE NUM_INFERENCE_STEPS)))"
proof -
  let ?items = "zip person_images garment_images"
  have al: "\<And>j. j < length ?items \<Longrightarrow> \<exists>t. garment_type_at garment_types (0 + j) = Inr t"
    using garment_type_at_aligned[OF assms] by simp
  from batch_loop_entries[OF stale_refl al, where acc = "[]" and e = e and w = w]
  obtain rs w' where "batch_loop e w 0 ?items garment_types [] = (Inr ([] @ rs), w')"
    and "length rs = length ?items"
    and "\<forall>j<length ?items. \<exists>t. garment_type_at garment_types (0 + j) = Inr t
                 \<and> rs ! j = batch_entry (fst (generate_try_on e
                       (w\<lparr>ticks := ticks w + clock_reads (take j rs)\<rparr>)
                       (fst (?items ! j)) (snd (?items ! j)) t GUIDANCE_SCALE NUM_INFERENCE_STEPS))"
    by blast
  then show ?thesis
    by (intro exI[of _ rs] exI[of _ w']) (simp add: batch_try_on_def)
qed

lemma list3_eqI:
  assumes "length xs = 3" "xs ! 0 = a" "xs ! 1 = b" "xs ! 2 = c"
  shows "xs = [a, b, c]"
proof -
  from assms(1) obtain x y z where "xs = [x, y, z]"
    by (cases xs; cases "tl xs"; cases "tl (tl xs)") auto
  with assms show ?thesis by simp
qed

text \<open>
  Claim C6. Take a batch of three index-aligned items (no categories, or one category entry
  per item). Suppose that, processed alone on the caller's store, the first and the third item
  succeed with \<open>r1\<close> and \<open>r3\<close> and the second raises \<open>err\<close>; alone means one call of
  \<open>generate_try_on\<close> on the store as the caller passed it, with the clock at the reading it
  has when the item's turn comes. Then the batch returns exactly three entries: \<open>r1\<close>, the
  error record of \<open>err\<close>, and \<open>r3\<close>. The hypotheses speak of the original store only, so
  nothing that the failed second item did to the store reaches the third entry.

  The second part covers every batch and every pattern of failures: an index-aligned batch
  never stops early, it returns one entry per pair of images, and each entry is the entry of
  that item processed alone in the sense above, whatever happened to the items before it.
\<close>

theorem batch_try_on_isolates_failure:
  assumes "garment_types = None \<and> t1 = None \<and> t2 = None \<and> t3 = None
           \<or> garment_types = Some [] \<and> t1 = None \<and> t2 = None \<and> t3 = None
           \<or> garment_types = Some [t1, t2, t3]"
    and "fst (generate_try_on e w p1 g1 t1 GUIDANCE_SCALE NUM_INFERENCE_STEPS) = Inr r1"
    and "fst (generate_try_on e (w\<lparr>ticks := ticks w + 2\<rparr>) p2 g2 t2
                GUIDANCE_SCALE NUM_INFERENCE_STEPS) = Inl err"
    and "fst (generate_try_on e (w\<lparr>ticks := ticks w + 3\<rparr>) p3 g3 t3
                GUIDANCE_SCALE NUM_INFERENCE_STEPS) = Inr r3"
  shows "fst (batch_try_on e w [p1, p2, p3] [g1, g2, g3] garment_types)
           = Inr [Inr r1, Inl (str_of_error err), Inr r3]
         \<and> (\<forall>person_images garment_images types.
               (types = None \<or> types = Some []
                \<or> (\<exists>ts. types = Some ts
                       \<and> min (length person_images) (length garment_images) \<le> length ts))
               \<longrightarrow> (\<exists>entries w'.
                     batch_try_on e w person_images garment_images types = (Inr entries, w')
                     \<and> length entries = min (length person_images) (length garment_images)
                     \<and> (\<forall>i<length entries. \<exists>t. garment_type_at types i = Inr t
                           \<and> entries ! i = batch_entry (fst (generate_try_on e
                                 (w\<lparr>ticks := ticks w + clock_reads (take i entries)\<rparr>)
                                 (person_images ! i) (garment_images ! i) t
                                 GUIDANCE_SCALE NUM_INFERENCE_STEPS)))))"
proof (intro conjI allI impI)
  have al: "garment_types = None \<or> garment_types = Some []
           \<or> (\<exists>ts. garment_types = Some ts \<and> min (length [p1, p2, p3]) (length [g1, g2, g3]) \<le> length ts)"
    using assms(1) by auto
  have t: "garment_type_at garment_types 0 = Inr t1"
          "garment_type_at garment_types 1 = Inr t2"
          "garment_type_at garment_types 2 = Inr t3"
    using assms(1) by (auto simp: garment_type_at_def)
  from batch_try_on_entries[OF al, of e w]
  obtain entries w' where run: "batch_try_on e w [p1, p2, p3] [g1, g2, g3] garment_types = (Inr entries, w')"
    and len: "length entries = 3"
    and ent: "\<And>i. i < 3 \<Longrightarrow> \<exists>t. garment_type_at garment_types i = Inr t
                 \<and> entries ! i = batch_entry (fst (generate_try_on e
                       (w\<lparr>ticks := ticks w + clock_reads (take i entries)\<rparr>)
                       ([p1, p2, p3] ! i) ([g1, g2, g3] ! i) t
                       GUIDANCE_SCALE NUM_INFERENCE_STEPS))"
    by auto
  have e0: "entries ! 0 = Inr r1"
    using ent[of 0] t(1) assms(2) by (simp add: clock_reads_def batch_entry_def)
  have k1: "take (Suc 0) entries = [Inr r1]"
    using len e0 by (cases entries) simp_all
  have e1: "entries ! 1 = Inl (str_of_error err)"
    using ent[of 1] t(2) assms(3) by (simp add: k1 clock_reads_def batch_entry_def)
  have k2: "take 2 entries = [Inr r1, Inl (str_of_error err)]"
    using len e0 e1 by (cases entries; cases "tl entries") (simp_all add: numeral_2_eq_2)
  have e2: "entries ! 2 = Inr r3"
    using ent[of 2] t(3) assms(4) by (simp add: k2 clock_reads_def batch_entry_def)
  have "entries = [Inr r1, Inl (str_of_error err), Inr r3]"
    using len e0 e1 e2 by (rule list3_eqI)
  then show "fst (batch_try_on e w [p1, p2, p3] [g1, g2, g3] garment_types)
           = Inr [Inr r1, Inl (str_of_error err), Inr r3]"
    using run by simp
next
  fix person_images garment_images :: "ref list" and types :: "string option list option"
  assume "types = None \<or> types = Some []
          \<or> (\<exists>ts. types = Some ts \<and> min (length person_images) (length garment_images) \<le> length ts)"
  then show "\<exists>entries w'.
                     batch_try_on e w person_images garment_images types = (Inr entries, w')
                     \<and> length entries = min (length person_images) (length garment_images)
                     \<and> (\<forall>i<length entries. \<exists>t. garment_type_at types i = Inr t
                           \<and> entries ! i = batch_entry (fst (generate_try_on e
                                 (w\<lparr>ticks := ticks w + clock_reads (take i entries)\<rparr>)
                                 (person_images ! i) (garment_images ! i) t
                                 GUIDANCE_SCALE NUM_INFERENCE_STEPS)))"
    by (rule batch_try_on_entries)
qed

theorem batch_try_on_isolates_failure_witness:
  "fst (generate_try_on example_env example_world 1 1 (Some ''hat'')
          GUIDANCE_SCALE NUM_INFERENCE_STEPS) = Inr (example_result 0)
   \<and> fst (generate_try_on example_env (example_world\<lparr>ticks := ticks example_world + 2\<rparr>) 1 1
          (Some ''tie'') GUIDANCE_SCALE NUM_INFERENCE_STEPS) = Inl (Raised ''out of memory'')
   \<and> fst (generate_try_on example_env (example_world\<lparr>ticks := ticks example_world + 3\<rparr>) 1 1
          None GUIDANCE_SCALE NUM_INFERENCE_STEPS) = Inr (example_result 3)
   \<and> fst (batch_try_on example_env example_world [1, 1, 1] [1, 1, 1]
          (Some [Some ''hat'', Some ''tie'', None]))
     = Inr [Inr (example_result 0), Inl ''out of memory'', Inr (example_result 3)]"
proof -
  have h: "\<And>k. heap (example_world\<lparr>ticks := k\<rparr>) (Suc 0) = example_image 6 4"
    "heap example_world (Suc 0) = example_image 6 4"
    by (simp_all add: example_world_def)
  have a: "fst (generate_try_on example_env example_world 1 1 (Some ''hat'')
          GUIDANCE_SCALE NUM_INFERENCE_STEPS) = Inr (example_result 0)"
    using example_run_hat[OF h(2), of "Some ''hat''"] by (simp add: example_world_def)
  have b: "fst (generate_try_on example_env (example_world\<lparr>ticks := ticks example_world + 2\<rparr>) 1 1
          (Some ''tie'') GUIDANCE_SCALE NUM_INFERENCE_STEPS) = Inl (Raised ''out of memory'')"
    using example_run_tie[OF h(1)] by simp
  have c: "fst (generate_try_on example_env (example_world\<lparr>ticks := ticks example_world + 3\<rparr>) 1 1
          None GUIDANCE_SCALE NUM_INFERENCE_STEPS) = Inr (example_result 3)"
    using example_run_hat[OF h(1), of None] by (simp add: example_world_def)
  from batch_try_on_isolates_failure[OF _ a b c, of "Some [Some ''hat'', Some ''tie'', None]"]
  have "fst (batch_try_on example_env example_world [1, 1, 1] [1, 1, 1]
          (Some [Some ''hat'', Some ''tie'', None]))
     = Inr [Inr (example_result 0), Inl ''out of memory'', Inr (example_result 3)]"
    by simp
  with a b c show ?thesis by blast
qed

end
